theory Spec2Isabelle
  imports Main "HOL-Library.Word"
begin

unbundle bit_operations_syntax

section \<open>Bytes, slices and run-time faults\<close>

text \<open>
  The runtime file \<^verbatim>\<open>os_wasip1.go\<close> works on Go byte slices and on the fixed-width
  integers of the WASI preview1 ABI.  A byte is an \<open>8 word\<close>, a byte slice is a list of
  bytes, and a Go run-time panic or a call of \<^verbatim>\<open>throw\<close> is a value of type \<open>fault\<close>.
\<close>

type_synonym byte = "8 word"
type_synonym bytes = "8 word list"
type_synonym u16 = "16 word"
type_synonym u32 = "32 word"
type_synonym u64 = "64 word"

datatype fault =
    IndexOutOfRange nat nat
  | SliceOutOfRange nat nat
  | Throw string

text \<open>
  A computation that only reads yields \<open>fault + 'a\<close>.  A computation that writes to a
  slice yields the slice as it is when the computation stops, together with the fault
  that stopped it, if any: a panic in the middle of a sequence of stores keeps the
  stores already made.
\<close>

type_synonym 'a res = "fault + 'a"
type_synonym wres = "bytes \<times> fault option"

definition bind_res :: "'a res \<Rightarrow> ('a \<Rightarrow> 'b res) \<Rightarrow> 'b res" where
  "bind_res r f = (case r of Inl e \<Rightarrow> Inl e | Inr x \<Rightarrow> f x)"

definition and_then :: "wres \<Rightarrow> (bytes \<Rightarrow> wres) \<Rightarrow> wres" where
  "and_then r f = (case r of (b, Some e) \<Rightarrow> (b, Some e) | (b, None) \<Rightarrow> f b)"

text \<open>\<^verbatim>\<open>b[i]\<close> as an expression: the index is checked against the length.\<close>

definition load :: "'a list \<Rightarrow> nat \<Rightarrow> 'a res" where
  "load b i = (if i < length b then Inr (b ! i) else Inl (IndexOutOfRange i (length b)))"

text \<open>\<^verbatim>\<open>_ = b[i]\<close>: the bounds check alone.\<close>

definition bounds_check :: "bytes \<Rightarrow> nat \<Rightarrow> wres" where
  "bounds_check b i = (if i < length b then (b, None) else (b, Some (IndexOutOfRange i (length b))))"

text \<open>\<^verbatim>\<open>b[i] = x\<close>: a checked store.\<close>

definition store :: "bytes \<Rightarrow> nat \<Rightarrow> byte \<Rightarrow> wres" where
  "store b i x = (if i < length b then (b[i := x], None) else (b, Some (IndexOutOfRange i (length b))))"

section \<open>Little-endian wire format\<close>

text \<open>The methods of \<^verbatim>\<open>littleEndian\<close>, statement by statement.\<close>

definition Uint16 :: "bytes \<Rightarrow> u16 res" where
  "Uint16 b =
     bind_res (load b 1) (\<lambda>_.
     bind_res (load b 0) (\<lambda>b0.
     bind_res (load b 1) (\<lambda>b1.
       Inr (ucast b0 OR push_bit 8 (ucast b1)))))"

definition PutUint16 :: "bytes \<Rightarrow> u16 \<Rightarrow> wres" where
  "PutUint16 b v =
     and_then (bounds_check b 1) (\<lambda>b.
     and_then (store b 0 (ucast v)) (\<lambda>b.
       store b 1 (ucast (drop_bit 8 v))))"

definition Uint32 :: "bytes \<Rightarrow> u32 res" where
  "Uint32 b =
     bind_res (load b 3) (\<lambda>_.
     bind_res (load b 0) (\<lambda>b0.
     bind_res (load b 1) (\<lambda>b1.
     bind_res (load b 2) (\<lambda>b2.
     bind_res (load b 3) (\<lambda>b3.
       Inr (ucast b0 OR push_bit 8 (ucast b1) OR push_bit 16 (ucast b2)
              OR push_bit 24 (ucast b3)))))))"

definition PutUint32 :: "bytes \<Rightarrow> u32 \<Rightarrow> wres" where
  "PutUint32 b v =
     and_then (bounds_check b 3) (\<lambda>b.
     and_then (store b 0 (ucast v)) (\<lambda>b.
     and_then (store b 1 (ucast (drop_bit 8 v))) (\<lambda>b.
     and_then (store b 2 (ucast (drop_bit 16 v))) (\<lambda>b.
       store b 3 (ucast (drop_bit 24 v))))))"

definition Uint64 :: "bytes \<Rightarrow> u64 res" where
  "Uint64 b =
     bind_res (load b 7) (\<lambda>_.
     bind_res (load b 0) (\<lambda>b0.
     bind_res (load b 1) (\<lambda>b1.
     bind_res (load b 2) (\<lambda>b2.
     bind_res (load b 3) (\<lambda>b3.
     bind_res (load b 4) (\<lambda>b4.
     bind_res (load b 5) (\<lambda>b5.
     bind_res (load b 6) (\<lambda>b6.
     bind_res (load b 7) (\<lambda>b7.
       Inr (ucast b0 OR push_bit 8 (ucast b1) OR push_bit 16 (ucast b2)
              OR push_bit 24 (ucast b3) OR push_bit 32 (ucast b4)
              OR push_bit 40 (ucast b5) OR push_bit 48 (ucast b6)
              OR push_bit 56 (ucast b7)))))))))))"

definition PutUint64 :: "bytes \<Rightarrow> u64 \<Rightarrow> wres" where
  "PutUint64 b v =
     and_then (bounds_check b 7) (\<lambda>b.
     and_then (store b 0 (ucast v)) (\<lambda>b.
     and_then (store b 1 (ucast (drop_bit 8 v))) (\<lambda>b.
     and_then (store b 2 (ucast (drop_bit 16 v))) (\<lambda>b.
     and_then (store b 3 (ucast (drop_bit 24 v))) (\<lambda>b.
     and_then (store b 4 (ucast (drop_bit 32 v))) (\<lambda>b.
     and_then (store b 5 (ucast (drop_bit 40 v))) (\<lambda>b.
     and_then (store b 6 (ucast (drop_bit 48 v))) (\<lambda>b.
       store b 7 (ucast (drop_bit 56 v))))))))))"

text \<open>
  A position inside a buffer is reached by slicing, \<^verbatim>\<open>b[o:]\<close>, as \<^verbatim>\<open>setClock\<close> does with
  \<^verbatim>\<open>body[8:]\<close>.  The slice shares the buffer's storage, so a write through the slice is a
  write to the buffer from position \<open>o\<close> on; slicing beyond the length panics.
\<close>

definition with_slice :: "bytes \<Rightarrow> nat \<Rightarrow> (bytes \<Rightarrow> wres) \<Rightarrow> wres" where
  "with_slice b off f =
     (if off \<le> length b
      then (case f (drop off b) of (s, e) \<Rightarrow> (take off b @ s, e))
      else (b, Some (SliceOutOfRange off (length b))))"

definition read_at :: "(bytes \<Rightarrow> 'a res) \<Rightarrow> bytes \<Rightarrow> nat \<Rightarrow> 'a res" where
  "read_at rd b off =
     (if off \<le> length b then rd (drop off b) else Inl (SliceOutOfRange off (length b)))"

definition write_at :: "(bytes \<Rightarrow> 'a \<Rightarrow> wres) \<Rightarrow> bytes \<Rightarrow> nat \<Rightarrow> 'a \<Rightarrow> wres" where
  "write_at wr b off v = with_slice b off (\<lambda>s. wr s v)"

section \<open>Host calls\<close>

text \<open>
  The \<^verbatim>\<open>go:wasmimport\<close> functions are the host's.  Each wrapper below takes the host's
  answer as a parameter and records the calls it makes, in order.  An \<^verbatim>\<open>errno\<close> of 0 is
  success.
\<close>

record poll_request =
  sub_addr :: nat
  sub_bytes :: bytes
  out_addr :: nat
  nsubscriptions :: u32

datatype hostcall =
    ArgsSizesGet
  | ArgsGet
  | EnvironSizesGet
  | EnvironGet
  | ClockTimeGet u32 u64
  | FdWrite u32 u32 u32 u32
  | RandomGet u32
  | PollOneoff poll_request

definition clockRealtime :: u32 where "clockRealtime = 0"
definition clockMonotonic :: u32 where "clockMonotonic = 1"
definition eventtypeClock :: byte where "eventtypeClock = 0"

section \<open>Sleep\<close>

text \<open>
  \<^verbatim>\<open>setClock\<close> obtains the body of the subscription from \<^verbatim>\<open>setBody\<close>, which is not in
  the given sources.  It is a parameter here: given the subscription's bytes and the
  event type, it yields the subscription's bytes after it has recorded the type, and the
  offset at which the body slice starts inside the subscription.  The four stores of
  \<^verbatim>\<open>setClock\<close> go through that slice.
\<close>

type_synonym set_body = "bytes \<Rightarrow> u64 \<Rightarrow> bytes \<times> nat"

definition clock_timeout_offset :: nat where "clock_timeout_offset = 8"
definition clock_precision_offset :: nat where "clock_precision_offset = 16"
definition clock_flags_offset :: nat where "clock_flags_offset = 24"

definition clock_body :: "bytes \<Rightarrow> u32 \<Rightarrow> u64 \<Rightarrow> u64 \<Rightarrow> u16 \<Rightarrow> wres" where
  "clock_body body cid timeout prec flags =
     and_then (write_at PutUint32 body 0 cid) (\<lambda>body.
     and_then (write_at PutUint64 body clock_timeout_offset timeout) (\<lambda>body.
     and_then (write_at PutUint64 body clock_precision_offset prec) (\<lambda>body.
       write_at PutUint16 body clock_flags_offset flags)))"

definition setClock :: "set_body \<Rightarrow> bytes \<Rightarrow> u32 \<Rightarrow> u64 \<Rightarrow> u64 \<Rightarrow> u16 \<Rightarrow> wres" where
  "setClock setBody u cid timeout prec flags =
     (case setBody u (ucast eventtypeClock) of
        (u', off) \<Rightarrow> with_slice u' off (\<lambda>body. clock_body body cid timeout prec flags))"

text \<open>
  \<^verbatim>\<open>usleep\<close>.  \<open>base\<close> is the address of the local array \<^verbatim>\<open>buf\<close>, which the compiler
  chooses.  The subscription is the first 48 bytes of \<^verbatim>\<open>slice\<close>, the event region the
  rest.
\<close>

definition usleep_slice_offset :: "nat \<Rightarrow> nat" where
  "usleep_slice_offset base = (if base mod 8 \<noteq> 0 then 4 else 0)"

definition usleep :: "nat \<Rightarrow> set_body \<Rightarrow> (poll_request \<Rightarrow> u32) \<Rightarrow> u32
    \<Rightarrow> hostcall list \<times> fault option" where
  "usleep base setBody poll_oneoff usec =
     (let buf = replicate 128 (0 :: byte);
          slice = drop (usleep_slice_offset base) buf;
          sub = take 48 slice
      in case setClock setBody sub clockMonotonic (ucast usec * 1000) 1000 0 of
           (sub', Some e) \<Rightarrow> ([], Some e)
         | (sub', None) \<Rightarrow>
             (let req = \<lparr>sub_addr = base + usleep_slice_offset base, sub_bytes = sub',
                          out_addr = base + usleep_slice_offset base + 48,
                          nsubscriptions = 1\<rparr>
              in if poll_oneoff req \<noteq> 0
                 then ([PollOneoff req], Some (Throw ''wasi_snapshot_preview1.poll_oneoff''))
                 else ([PollOneoff req], None)))"

text \<open>
  A \<^verbatim>\<open>setBody\<close> that follows the preview1 layout (tag in the byte at offset 8, body from
  offset 16), for concrete evaluations.
\<close>

definition preview1_setBody :: set_body where
  "preview1_setBody u typ = (u[8 := ucast typ], 16)"

definition poll_succeeds :: "poll_request \<Rightarrow> u32" where
  "poll_succeeds req = 0"


text \<open>\<^verbatim>\<open>tmpUint64_1\<close>, the rounding used by the time source for its scratch pointer.\<close>

definition tmpUint64_1 :: "nat \<Rightarrow> nat" where
  "tmpUint64_1 ptr = (if ptr mod 8 \<noteq> 0 then ptr + (8 - ptr mod 8) else ptr)"

definition tmpUint64_2 :: "nat \<Rightarrow> nat" where
  "tmpUint64_2 ptr0 =
     (let ptr = ptr0 + 16 in if ptr mod 8 \<noteq> 0 then ptr + (8 - ptr mod 8) else ptr)"

section \<open>Time, write and random\<close>

definition walltime1 :: "(u32 \<Rightarrow> u64 \<Rightarrow> u32 \<times> u64) \<Rightarrow> hostcall list \<times> (u64 \<times> u32) res" where
  "walltime1 clock_time_get =
     (case clock_time_get clockRealtime 0 of
        (errno, time) \<Rightarrow>
          if errno \<noteq> 0 then ([ClockTimeGet clockRealtime 0], Inl (Throw ''clock_time_get failed''))
          else ([ClockTimeGet clockRealtime 0],
                Inr (time div 1000000000, ucast (time mod 1000000000))))"

definition nanotime1 :: "(u32 \<Rightarrow> u64 \<Rightarrow> u32 \<times> u64) \<Rightarrow> hostcall list \<times> u64 res" where
  "nanotime1 clock_time_get =
     (case clock_time_get clockMonotonic 0 of
        (errno, time) \<Rightarrow>
          if errno \<noteq> 0 then ([ClockTimeGet clockMonotonic 0], Inl (Throw ''clock_time_get failed''))
          else ([ClockTimeGet clockMonotonic 0], Inr time))"

text \<open>
  \<^verbatim>\<open>write1\<close>: \<open>fd\<close> and \<open>p\<close> are \<^verbatim>\<open>uintptr\<close> values, narrowed to 32 bits; \<open>n\<close> is an
  \<^verbatim>\<open>int32\<close>, reinterpreted as the 32-bit \<^verbatim>\<open>size\<close>.
\<close>

definition write1 :: "(u32 \<Rightarrow> u32 \<Rightarrow> u32 \<Rightarrow> u32 \<Rightarrow> u32 \<times> u32) \<Rightarrow> nat \<Rightarrow> nat \<Rightarrow> u32
    \<Rightarrow> hostcall list \<times> u32 res" where
  "write1 fd_write fd p n =
     (let call = FdWrite (of_nat fd) (of_nat p) n 1
      in case fd_write (of_nat fd) (of_nat p) n 1 of
           (errno, nwritten) \<Rightarrow>
             if errno \<noteq> 0 then ([call], Inl (Throw ''fd_write failed''))
             else ([call], Inr nwritten))"

text \<open>
  \<^verbatim>\<open>readRandom\<close>.  The argument \<^verbatim>\<open>&r[0]\<close> is evaluated before the call and indexes the
  slice, so it panics on an empty slice.  The length is narrowed to the 32-bit \<^verbatim>\<open>size\<close>.
  The result is a Go \<^verbatim>\<open>int\<close>.
\<close>

definition readRandom :: "(bytes \<Rightarrow> u32 \<Rightarrow> u32) \<Rightarrow> bytes \<Rightarrow> hostcall list \<times> int res" where
  "readRandom random_get r =
     (case load r 0 of
        Inl e \<Rightarrow> ([], Inl e)
      | Inr _ \<Rightarrow>
          if random_get r (of_nat (length r)) \<noteq> 0
          then ([RandomGet (of_nat (length r))], Inr 0)
          else ([RandomGet (of_nat (length r))], Inr (int (length r))))"

definition random_get_succeeds :: "bytes \<Rightarrow> u32 \<Rightarrow> u32" where
  "random_get_succeeds r n = 0"

definition random_get_fails :: "bytes \<Rightarrow> u32 \<Rightarrow> u32" where
  "random_get_fails r n = 29"

section \<open>Process bootstrap\<close>

text \<open>
  \<^verbatim>\<open>goenvs\<close> runs the same decoding twice, for the arguments and for the environment.
  The host answers a sizes call with an \<^verbatim>\<open>errno\<close>, an entry count and a buffer length, and
  a get call, which is given the 32-bit address of the flat buffer, with an \<^verbatim>\<open>errno\<close>, the
  index it stored and the bytes it stored.  The Go slices keep the lengths they were made
  with: what the host stores lands in the zeroed slices.
\<close>

record wasi_host =
  args_sizes_get :: "u32 \<times> u32 \<times> u32"
  args_get :: "u32 \<Rightarrow> u32 \<times> u32 list \<times> bytes"
  environ_sizes_get :: "u32 \<times> u32 \<times> u32"
  environ_get :: "u32 \<Rightarrow> u32 \<times> u32 list \<times> bytes"

definition host_stores :: "'a list \<Rightarrow> 'a list \<Rightarrow> 'a list" where
  "host_stores made stored = take (length made) stored @ drop (length stored) made"

text \<open>
  The inner loop \<^verbatim>\<open>for buf[end] != 0 { end++ }\<close>.  Every step indexes the buffer, so
  the loop stops at the first NUL byte or panics at the end of the buffer.  The buffer
  has fewer than \<open>2 ^ 32\<close> bytes, so the 32-bit \<^verbatim>\<open>end\<close> does not wrap before that.
\<close>

function scan_nul :: "bytes \<Rightarrow> nat \<Rightarrow> nat res" where
  "scan_nul buf e =
     (if e < length buf
      then (if buf ! e \<noteq> 0 then scan_nul buf (e + 1) else Inr e)
      else Inl (IndexOutOfRange e (length buf)))"
  by pat_completeness auto
termination
  by (relation "measure (\<lambda>(buf, e). length buf - e)") auto

declare scan_nul.simps [simp del]

text \<open>A Go string made from bytes: the same bytes, as characters.\<close>

definition gostring :: "bytes \<Rightarrow> string" where
  "gostring bs = map (\<lambda>b. char_of (unat b)) bs"

text \<open>
  One entry: \<^verbatim>\<open>start := argv[i] - base\<close> in 32-bit arithmetic, the scan for \<^verbatim>\<open>end\<close>, and
  \<^verbatim>\<open>string(buf[start:end])\<close>.
\<close>

definition decode_entry :: "bytes \<Rightarrow> u32 \<Rightarrow> u32 \<Rightarrow> string res" where
  "decode_entry buf base p =
     (let start = unat (p - base)
      in bind_res (scan_nul buf start) (\<lambda>e.
           Inr (gostring (take (e - start) (drop start buf)))))"

text \<open>
  The loop \<^verbatim>\<open>for i := range argslice\<close>, over the indices still to do.  A panic leaves
  the entries already stored.
\<close>

fun decode_entries :: "bytes \<Rightarrow> u32 \<Rightarrow> u32 list \<Rightarrow> nat list \<Rightarrow> string list
    \<Rightarrow> string list \<times> fault option" where
  "decode_entries buf base argv [] out = (out, None)"
| "decode_entries buf base argv (i # rest) out =
     (case bind_res (load argv i) (decode_entry buf base) of
        Inl e \<Rightarrow> (out, Some e)
      | Inr str \<Rightarrow> decode_entries buf base argv rest (out[i := str]))"

text \<open>
  One pass: the sizes call, the two \<^verbatim>\<open>make\<close>s, the get call and the loop.  \<open>addr\<close> is
  the address of the flat buffer.  The result is the string slice, the host calls made
  and the fault, if any.
\<close>

definition decode_pass :: "u32 \<times> u32 \<times> u32 \<Rightarrow> (u32 \<Rightarrow> u32 \<times> u32 list \<times> bytes) \<Rightarrow> nat
    \<Rightarrow> hostcall \<Rightarrow> hostcall \<Rightarrow> string \<Rightarrow> string
    \<Rightarrow> string list \<times> hostcall list \<times> fault option" where
  "decode_pass sizes get addr sizes_call get_call sizes_msg get_msg =
     (case sizes of
        (errno, count, bufLen) \<Rightarrow>
          if errno \<noteq> 0 then ([], [sizes_call], Some (Throw sizes_msg))
          else
            (let out = replicate (unat count) [] in
             if 0 < unat count then
               (let argv0 = replicate (unat count) (0 :: u32);
                    buf0 = replicate (unat bufLen) (0 :: byte)
                in case (load argv0 0, load buf0 0) of
                     (Inl e, _) \<Rightarrow> (out, [sizes_call], Some e)
                   | (Inr _, Inl e) \<Rightarrow> (out, [sizes_call], Some e)
                   | (Inr _, Inr _) \<Rightarrow>
                       (case get (of_nat addr) of
                          (errno', stored_argv, stored_buf) \<Rightarrow>
                            if errno' \<noteq> 0
                            then (out, [sizes_call, get_call], Some (Throw get_msg))
                            else
                              (let argv = host_stores argv0 stored_argv;
                                   buf = host_stores buf0 stored_buf
                               in case decode_entries buf (of_nat addr) argv
                                         [0..<length out] out of
                                    (out', f) \<Rightarrow> (out', [sizes_call, get_call], f))))
             else (out, [sizes_call], None)))"

record bootstrap =
  argslice :: "string list"
  envs :: "string list"
  calls :: "hostcall list"
  failure :: "fault option"

definition goenvs :: "wasi_host \<Rightarrow> nat \<Rightarrow> nat \<Rightarrow> bootstrap" where
  "goenvs h argvBuf_addr environBuf_addr =
     (case decode_pass (args_sizes_get h) (args_get h) argvBuf_addr
             ArgsSizesGet ArgsGet ''args_sizes_get failed'' ''args_get failed'' of
        (args, cs, Some e) \<Rightarrow>
          \<lparr>argslice = args, envs = [], calls = cs, failure = Some e\<rparr>
      | (args, cs, None) \<Rightarrow>
          (case decode_pass (environ_sizes_get h) (environ_get h) environBuf_addr
                  EnvironSizesGet EnvironGet ''environ_sizes_get failed''
                  ''environ_get failed'' of
             (es, cs', f) \<Rightarrow>
               \<lparr>argslice = args, envs = es, calls = cs @ cs', failure = f\<rparr>))"

text \<open>
  A table as the host delivers it: \<open>starts\<close> are the positions of the entries in the flat
  buffer \<open>buf\<close>; the index holds the buffer's address plus each position; every entry
  has a NUL byte at or after its start.
\<close>

definition delivers :: "u32 \<times> u32 \<times> u32 \<Rightarrow> (u32 \<Rightarrow> u32 \<times> u32 list \<times> bytes) \<Rightarrow> nat
    \<Rightarrow> nat list \<Rightarrow> bytes \<Rightarrow> bool" where
  "delivers sizes get addr starts buf \<longleftrightarrow>
     length starts < 2 ^ 32 \<and> length buf < 2 ^ 32
     \<and> sizes = (0, of_nat (length starts), of_nat (length buf))
     \<and> get (of_nat addr) = (0, map (\<lambda>s. of_nat addr + of_nat s) starts, buf)
     \<and> list_all (\<lambda>s. 0 \<in> set (drop s buf)) starts"

definition entry_at :: "bytes \<Rightarrow> nat \<Rightarrow> string" where
  "entry_at buf s = gostring (takeWhile (\<lambda>b. b \<noteq> 0) (drop s buf))"

text \<open>The host of the specification's example: arguments \<open>a\<close> and \<open>bc\<close>, one variable.\<close>

definition example_args_buf :: bytes where
  "example_args_buf = [0x61, 0, 0x62, 0x63, 0]"

definition example_env_buf :: bytes where
  "example_env_buf = [0x58, 0x3D, 0x31, 0]"

definition example_host :: wasi_host where
  "example_host =
     \<lparr>args_sizes_get = (0, 2, 5),
      args_get = (\<lambda>a. (0, [a, a + 2], example_args_buf)),
      environ_sizes_get = (0, 1, 4),
      environ_get = (\<lambda>a. (0, [a], example_env_buf))\<rparr>"

definition empty_host :: wasi_host where
  "empty_host =
     \<lparr>args_sizes_get = (0, 0, 0),
      args_get = (\<lambda>a. (0, [], [])),
      environ_sizes_get = (0, 0, 0),
      environ_get = (\<lambda>a. (0, [], []))\<rparr>"

section \<open>Aligned allocation\<close>

text \<open>
  \<^verbatim>\<open>NewAligned\<close> makes up to five allocations: a plain \<open>T\<close>, and structs that put 2, 4, 6
  and 8 bytes before a field of type \<open>T\<close>.  A shape is a size and an alignment; Go places
  the field at the first multiple of its alignment after the padding bytes.  The
  allocator \<open>new\<close> gives the address of each allocation; its first argument tells the
  five allocations apart.  On failure the five candidate addresses are printed.
\<close>

record shape =
  size_of :: nat
  align_of :: nat

definition field_offset :: "nat \<Rightarrow> shape \<Rightarrow> nat" where
  "field_offset pad T = ((pad + align_of T - 1) div align_of T) * align_of T"

definition padded :: "nat \<Rightarrow> shape \<Rightarrow> shape" where
  "padded pad T =
     \<lparr>size_of = ((field_offset pad T + size_of T + align_of T - 1) div align_of T) * align_of T,
      align_of = align_of T\<rparr>"

definition candidate :: "(nat \<Rightarrow> shape \<Rightarrow> nat) \<Rightarrow> shape \<Rightarrow> nat \<Rightarrow> nat" where
  "candidate new T pad =
     (if pad = 0 then new 0 T else new pad (padded pad T) + field_offset pad T)"

definition NewAligned :: "(nat \<Rightarrow> shape \<Rightarrow> nat) \<Rightarrow> shape \<Rightarrow> (string \<times> nat) list \<times> nat res" where
  "NewAligned new T =
     (let v0 = candidate new T 0 in
      if v0 mod 8 = 0 then ([], Inr v0) else
      let v2 = candidate new T 2 in
      if v2 mod 8 = 0 then ([], Inr v2) else
      let v4 = candidate new T 4 in
      if v4 mod 8 = 0 then ([], Inr v4) else
      let v6 = candidate new T 6 in
      if v6 mod 8 = 0 then ([], Inr v6) else
      let v8 = candidate new T 8 in
      if v8 mod 8 = 0 then ([], Inr v8) else
      ([(''0ptr= '', v0), (''2ptr= '', v2), (''4ptr= '', v4), (''6ptr= '', v6),
        (''8ptr= '', v8)],
       Inl (Throw ''failed to allocate aligned value'')))"

definition candidates :: "(nat \<Rightarrow> shape \<Rightarrow> nat) \<Rightarrow> shape \<Rightarrow> nat list" where
  "candidates new T = map (candidate new T) [0, 2, 4, 6, 8]"

text \<open>
  The allocator's alignment period is \<open>p\<close>: every address it gives is a multiple of
  \<open>p\<close>.
\<close>

definition alignment_period :: "nat \<Rightarrow> (nat \<Rightarrow> shape \<Rightarrow> nat) \<Rightarrow> bool" where
  "alignment_period p new \<longleftrightarrow> (\<forall>k T. p dvd new k T)"

text \<open>
  An allocator whose addresses are multiples of 4 and not of 8 where that defeats the
  padding, and the shape of a 4-byte value aligned to 4, as a 32-bit target has them.
\<close>

definition word_new :: "nat \<Rightarrow> shape \<Rightarrow> nat" where
  "word_new k T = (if k = 2 \<or> k = 4 then 64 * (k + 1) else 64 * (k + 1) + 4)"

definition word_shape :: shape where
  "word_shape = \<lparr>size_of = 4, align_of = 4\<rparr>"

text \<open>
  An allocator that packs small objects at odd addresses, as an allocator of single bytes
  may, and the shape of a byte.
\<close>

definition odd_new :: "nat \<Rightarrow> shape \<Rightarrow> nat" where
  "odd_new k T = 64 * (k + 1) + 1"

definition byte_shape :: shape where
  "byte_shape = \<lparr>size_of = 1, align_of = 1\<rparr>"

definition aligned_new :: "nat \<Rightarrow> shape \<Rightarrow> nat" where
  "aligned_new k T = 64 * (k + 1)"

section \<open>Time zone data\<close>

text \<open>
  From \<^verbatim>\<open>tz.go\<close>.  The table \<^verbatim>\<open>files\<close> and the loaders \<^verbatim>\<open>LoadLocation\<close> and
  \<^verbatim>\<open>LoadLocationFromTZData\<close> are declared elsewhere in the package and are parameters.
  A Go result \<^verbatim>\<open>(*Location, error)\<close> is a pair of options; an error made by
  \<^verbatim>\<open>errors.New\<close> is its message.
\<close>

type_synonym 'loc loaded = "'loc option \<times> string option"

definition tzData :: "(string \<rightharpoonup> bytes) \<Rightarrow> string \<Rightarrow> bytes \<times> bool" where
  "tzData files name =
     (case files (''zoneinfo/'' @ name) of Some data \<Rightarrow> (data, True) | None \<Rightarrow> ([], False))"

definition loadLocationEmbeddedFile :: "(string \<Rightarrow> 'loc loaded) \<Rightarrow> (string \<Rightarrow> bytes \<Rightarrow> 'loc loaded)
    \<Rightarrow> (string \<rightharpoonup> bytes) \<Rightarrow> string \<Rightarrow> 'loc loaded" where
  "loadLocationEmbeddedFile LoadLocation LoadLocationFromTZData files name =
     (if name = [] \<or> name = ''UTC'' \<or> name = ''Local'' then LoadLocation name
      else case tzData files name of
             (tzdata, True) \<Rightarrow> LoadLocationFromTZData name tzdata
           | (tzdata, False) \<Rightarrow> (None, Some (''unknown location '' @ name)))"

text \<open>Sample collaborators for concrete evaluations.\<close>

definition sample_LoadLocation :: "string \<Rightarrow> string loaded" where
  "sample_LoadLocation name = (Some (''system:'' @ name), None)"

definition sample_FromTZData :: "string \<Rightarrow> bytes \<Rightarrow> string loaded" where
  "sample_FromTZData name data = (Some (''embedded:'' @ name), None)"

definition sample_files :: "string \<rightharpoonup> bytes" where
  "sample_files = [''zoneinfo/Europe/Paris'' \<mapsto> [0x54, 0x5A, 0x69, 0x66]]"

section \<open>Properties of the wire format\<close>

subsection \<open>Reassembling a word from its bytes\<close>

lemma bit_byte0: "bit (ucast (ucast (v::'a::len word) :: byte) :: 'a word) n \<longleftrightarrow> n < 8 \<and> bit v n"
  by (auto simp: bit_simps dest: bit_imp_le_length)

lemma bit_byteN: "bit (push_bit k (ucast (ucast (drop_bit k (v::'a::len word)) :: byte)) :: 'a word) n
    \<longleftrightarrow> k \<le> n \<and> n < k + 8 \<and> bit v n"
  by (auto simp: bit_simps dest: bit_imp_le_length)

lemma le16: "(ucast (ucast v :: byte) OR push_bit 8 (ucast (ucast (drop_bit 8 v) :: byte))) = (v::u16)"
proof (rule bit_word_eqI)
  fix n assume "n < LENGTH(16)"
  then show "bit (ucast (ucast v :: byte) OR push_bit 8 (ucast (ucast (drop_bit 8 v) :: byte)) :: u16) n = bit v n"
    unfolding bit_or_iff bit_byte0 bit_byteN by auto
qed

lemma le32: "(ucast (ucast v :: byte) OR push_bit 8 (ucast (ucast (drop_bit 8 v) :: byte))
   OR push_bit 16 (ucast (ucast (drop_bit 16 v) :: byte)) OR push_bit 24 (ucast (ucast (drop_bit 24 v) :: byte))) = (v::u32)"
  (is "?l = v")
proof (rule bit_word_eqI)
  fix n assume "n < LENGTH(32)"
  then show "bit ?l n = bit v n"
    unfolding bit_or_iff bit_byte0 bit_byteN by auto
qed

lemma le64: "(ucast (ucast v :: byte) OR push_bit 8 (ucast (ucast (drop_bit 8 v) :: byte))
   OR push_bit 16 (ucast (ucast (drop_bit 16 v) :: byte)) OR push_bit 24 (ucast (ucast (drop_bit 24 v) :: byte))
   OR push_bit 32 (ucast (ucast (drop_bit 32 v) :: byte)) OR push_bit 40 (ucast (ucast (drop_bit 40 v) :: byte))
   OR push_bit 48 (ucast (ucast (drop_bit 48 v) :: byte)) OR push_bit 56 (ucast (ucast (drop_bit 56 v) :: byte))) = (v::u64)"
  (is "?l = v")
proof (rule bit_word_eqI)
  fix n assume "n < LENGTH(64)"
  then show "bit ?l n = bit v n"
    unfolding bit_or_iff bit_byte0 bit_byteN by auto
qed


subsection \<open>What the primitives compute\<close>

lemma PutUint16_ok: "2 \<le> length b \<Longrightarrow> PutUint16 b v = (b[0 := ucast v, 1 := ucast (drop_bit 8 v)], None)"
  by (auto simp: PutUint16_def and_then_def bounds_check_def store_def)

lemma PutUint32_ok: "4 \<le> length b \<Longrightarrow> PutUint32 b v = (b[0 := ucast v, 1 := ucast (drop_bit 8 v), 2 := ucast (drop_bit 16 v), 3 := ucast (drop_bit 24 v)], None)"
  by (auto simp: PutUint32_def and_then_def bounds_check_def store_def)

lemma PutUint64_ok: "8 \<le> length b \<Longrightarrow> PutUint64 b v = (b[0 := ucast v, 1 := ucast (drop_bit 8 v), 2 := ucast (drop_bit 16 v), 3 := ucast (drop_bit 24 v),
   4 := ucast (drop_bit 32 v), 5 := ucast (drop_bit 40 v), 6 := ucast (drop_bit 48 v), 7 := ucast (drop_bit 56 v)], None)"
  by (auto simp: PutUint64_def and_then_def bounds_check_def store_def)

lemma PutUint16_short: "length b < 2 \<Longrightarrow> PutUint16 b v = (b, Some (IndexOutOfRange 1 (length b)))"
  by (simp add: PutUint16_def and_then_def bounds_check_def)
lemma PutUint32_short: "length b < 4 \<Longrightarrow> PutUint32 b v = (b, Some (IndexOutOfRange 3 (length b)))"
  by (simp add: PutUint32_def and_then_def bounds_check_def)
lemma PutUint64_short: "length b < 8 \<Longrightarrow> PutUint64 b v = (b, Some (IndexOutOfRange 7 (length b)))"
  by (simp add: PutUint64_def and_then_def bounds_check_def)

lemma Uint16_short: "length b < 2 \<Longrightarrow> Uint16 b = Inl (IndexOutOfRange 1 (length b))"
  by (simp add: Uint16_def bind_res_def load_def)
lemma Uint32_short: "length b < 4 \<Longrightarrow> Uint32 b = Inl (IndexOutOfRange 3 (length b))"
  by (simp add: Uint32_def bind_res_def load_def)
lemma Uint64_short: "length b < 8 \<Longrightarrow> Uint64 b = Inl (IndexOutOfRange 7 (length b))"
  by (simp add: Uint64_def bind_res_def load_def)

lemma Uint16_ok: "2 \<le> length b \<Longrightarrow> Uint16 b = Inr (ucast (b!0) OR push_bit 8 (ucast (b!1)))"
  by (auto simp: Uint16_def bind_res_def load_def)

lemma Uint32_ok: "4 \<le> length b \<Longrightarrow> Uint32 b = Inr (ucast (b ! 0) OR push_bit 8 (ucast (b ! 1)) OR push_bit 16 (ucast (b ! 2))
              OR push_bit 24 (ucast (b ! 3)))"
  by (auto simp: Uint32_def bind_res_def load_def)

lemma Uint64_ok: "8 \<le> length b \<Longrightarrow> Uint64 b = Inr (ucast (b ! 0) OR push_bit 8 (ucast (b ! 1)) OR push_bit 16 (ucast (b ! 2))
              OR push_bit 24 (ucast (b ! 3)) OR push_bit 32 (ucast (b ! 4))
              OR push_bit 40 (ucast (b ! 5)) OR push_bit 48 (ucast (b ! 6))
              OR push_bit 56 (ucast (b ! 7)))"
  by (auto simp: Uint64_def bind_res_def load_def)

lemma write_slice:
  assumes "drop off b' = s" and "take off b' = take off b"
  shows "take off b @ s = b'"
  using append_take_drop_id [of off b'] assms by simp

lemma write_at_16: "off + 2 \<le> length b \<Longrightarrow>
   write_at PutUint16 b off v = (b[off := ucast v, off + 1 := ucast (drop_bit 8 v)], None)"
  by (simp add: write_at_def with_slice_def PutUint16_ok) (rule write_slice; simp add: drop_update_swap)

lemma write_at_32: "off + 4 \<le> length b \<Longrightarrow>
   write_at PutUint32 b off v = (b[off := ucast v, off + 1 := ucast (drop_bit 8 v),
     off + 2 := ucast (drop_bit 16 v), off + 3 := ucast (drop_bit 24 v)], None)"
  by (simp add: write_at_def with_slice_def PutUint32_ok) (rule write_slice; simp add: drop_update_swap)

lemma write_at_64: "off + 8 \<le> length b \<Longrightarrow>
   write_at PutUint64 b off v = (b[off := ucast v, off + 1 := ucast (drop_bit 8 v),
     off + 2 := ucast (drop_bit 16 v), off + 3 := ucast (drop_bit 24 v),
     off + 4 := ucast (drop_bit 32 v), off + 5 := ucast (drop_bit 40 v),
     off + 6 := ucast (drop_bit 48 v), off + 7 := ucast (drop_bit 56 v)], None)"
  by (simp add: write_at_def with_slice_def PutUint64_ok) (rule write_slice; simp add: drop_update_swap)

lemma read_at_16: "off + 2 \<le> length b \<Longrightarrow>
   read_at Uint16 b off = Inr (ucast (b ! off) OR push_bit 8 (ucast (b ! (off + 1))))"
  by (simp add: read_at_def Uint16_ok)

lemma read_at_32: "off + 4 \<le> length b \<Longrightarrow>
   read_at Uint32 b off = Inr (ucast (b ! off) OR push_bit 8 (ucast (b ! (off + 1)))
      OR push_bit 16 (ucast (b ! (off + 2))) OR push_bit 24 (ucast (b ! (off + 3))))"
  by (simp add: read_at_def Uint32_ok)

lemma read_at_64: "off + 8 \<le> length b \<Longrightarrow>
   read_at Uint64 b off = Inr (ucast (b ! off) OR push_bit 8 (ucast (b ! (off + 1)))
      OR push_bit 16 (ucast (b ! (off + 2))) OR push_bit 24 (ucast (b ! (off + 3)))
      OR push_bit 32 (ucast (b ! (off + 4))) OR push_bit 40 (ucast (b ! (off + 5)))
      OR push_bit 48 (ucast (b ! (off + 6))) OR push_bit 56 (ucast (b ! (off + 7))))"
  by (simp add: read_at_def Uint64_ok)


lemma read_at_0: "read_at rd b 0 = rd b"
  by (simp add: read_at_def)

lemma write_at_0: "write_at wr b 0 v = wr b v"
  by (simp add: write_at_def with_slice_def)

subsection \<open>Round trip\<close>

text \<open>
  Claim C4.  For every buffer \<open>b\<close>, every position \<open>off\<close> that leaves room for the
  value, and every value of 16, 32 or 64 bits: writing the value with \<^verbatim>\<open>PutUint16\<close>,
  \<^verbatim>\<open>PutUint32\<close> or \<^verbatim>\<open>PutUint64\<close> at that position succeeds, keeps the buffer's length,
  and reading with \<^verbatim>\<open>Uint16\<close>, \<^verbatim>\<open>Uint32\<close> or \<^verbatim>\<open>Uint64\<close> at the same position gives
  the value back.
\<close>

theorem littleEndian_roundtrip:
  "(off + 2 \<le> length b \<longrightarrow>
      (\<exists>b'. write_at PutUint16 b off v16 = (b', None) \<and> length b' = length b
            \<and> read_at Uint16 b' off = Inr v16))
   \<and> (off + 4 \<le> length b \<longrightarrow>
      (\<exists>b'. write_at PutUint32 b off v32 = (b', None) \<and> length b' = length b
            \<and> read_at Uint32 b' off = Inr v32))
   \<and> (off + 8 \<le> length b \<longrightarrow>
      (\<exists>b'. write_at PutUint64 b off v64 = (b', None) \<and> length b' = length b
            \<and> read_at Uint64 b' off = Inr v64))"
proof (intro conjI impI)
  assume "off + 2 \<le> length b"
  then show "\<exists>b'. write_at PutUint16 b off v16 = (b', None) \<and> length b' = length b
            \<and> read_at Uint16 b' off = Inr v16"
    by (simp add: write_at_16 read_at_16 le16)
next
  assume "off + 4 \<le> length b"
  then show "\<exists>b'. write_at PutUint32 b off v32 = (b', None) \<and> length b' = length b
            \<and> read_at Uint32 b' off = Inr v32"
    by (simp add: write_at_32 read_at_32 le32)
next
  assume "off + 8 \<le> length b"
  then show "\<exists>b'. write_at PutUint64 b off v64 = (b', None) \<and> length b' = length b
            \<and> read_at Uint64 b' off = Inr v64"
    by (simp add: write_at_64 read_at_64 le64)
qed

theorem littleEndian_roundtrip_witness:
  "read_at Uint16 (fst (write_at PutUint16 [1, 2, 3, 4, 5, 6, 7, 8, 9, 10] 2 0xBEEF)) 2 = Inr 0xBEEF
   \<and> read_at Uint32 (fst (write_at PutUint32 [1, 2, 3, 4, 5, 6, 7, 8, 9, 10] 2 0xDEADBEEF)) 2
        = Inr 0xDEADBEEF
   \<and> read_at Uint64 (fst (write_at PutUint64 [1, 2, 3, 4, 5, 6, 7, 8, 9, 10] 2 0x0123456789ABCDEF)) 2
        = Inr 0x0123456789ABCDEF"
  using littleEndian_roundtrip [of 2 "[1, 2, 3, 4, 5, 6, 7, 8, 9, 10]" "0xBEEF" "0xDEADBEEF"
      "0x0123456789ABCDEF"]
  by auto

subsection \<open>Bounds\<close>

text \<open>
  Claim C5.  On a buffer with fewer bytes than the access width, each of \<^verbatim>\<open>Uint16\<close>,
  \<^verbatim>\<open>Uint32\<close>, \<^verbatim>\<open>Uint64\<close>, \<^verbatim>\<open>PutUint16\<close>, \<^verbatim>\<open>PutUint32\<close> and \<^verbatim>\<open>PutUint64\<close> stops with an
  index-out-of-range fault raised by its first statement, the check of the highest
  index, and the writes leave the buffer as it was.  Moreover a write primitive that
  faults, on any buffer, leaves the buffer unchanged: there are no partial writes.  The
  same holds at a position \<open>off\<close> that leaves fewer bytes than the width, such as
  \<open>length b - width + 1\<close>.
\<close>

theorem littleEndian_bounds:
  "(length b < 2 \<longrightarrow>
      Uint16 b = Inl (IndexOutOfRange 1 (length b))
      \<and> PutUint16 b v16 = (b, Some (IndexOutOfRange 1 (length b))))
   \<and> (length b < 4 \<longrightarrow>
      Uint32 b = Inl (IndexOutOfRange 3 (length b))
      \<and> PutUint32 b v32 = (b, Some (IndexOutOfRange 3 (length b))))
   \<and> (length b < 8 \<longrightarrow>
      Uint64 b = Inl (IndexOutOfRange 7 (length b))
      \<and> PutUint64 b v64 = (b, Some (IndexOutOfRange 7 (length b))))
   \<and> (snd (PutUint16 b v16) \<noteq> None \<longrightarrow> fst (PutUint16 b v16) = b)
   \<and> (snd (PutUint32 b v32) \<noteq> None \<longrightarrow> fst (PutUint32 b v32) = b)
   \<and> (snd (PutUint64 b v64) \<noteq> None \<longrightarrow> fst (PutUint64 b v64) = b)
   \<and> (off \<le> length b \<and> length b < off + 2 \<longrightarrow>
        read_at Uint16 b off = Inl (IndexOutOfRange 1 (length b - off))
        \<and> write_at PutUint16 b off v16 = (b, Some (IndexOutOfRange 1 (length b - off))))
   \<and> (off \<le> length b \<and> length b < off + 4 \<longrightarrow>
        read_at Uint32 b off = Inl (IndexOutOfRange 3 (length b - off))
        \<and> write_at PutUint32 b off v32 = (b, Some (IndexOutOfRange 3 (length b - off))))
   \<and> (off \<le> length b \<and> length b < off + 8 \<longrightarrow>
        read_at Uint64 b off = Inl (IndexOutOfRange 7 (length b - off))
        \<and> write_at PutUint64 b off v64 = (b, Some (IndexOutOfRange 7 (length b - off))))"
proof -
  have "snd (PutUint16 b v16) \<noteq> None \<longrightarrow> fst (PutUint16 b v16) = b"
    by (cases "length b < 2") (simp_all add: PutUint16_short PutUint16_ok)
  moreover have "snd (PutUint32 b v32) \<noteq> None \<longrightarrow> fst (PutUint32 b v32) = b"
    by (cases "length b < 4") (simp_all add: PutUint32_short PutUint32_ok)
  moreover have "snd (PutUint64 b v64) \<noteq> None \<longrightarrow> fst (PutUint64 b v64) = b"
    by (cases "length b < 8") (simp_all add: PutUint64_short PutUint64_ok)
  moreover have "off \<le> length b \<and> length b < off + 2 \<longrightarrow>
        read_at Uint16 b off = Inl (IndexOutOfRange 1 (length b - off))
        \<and> write_at PutUint16 b off v16 = (b, Some (IndexOutOfRange 1 (length b - off)))"
    by (auto simp: read_at_def write_at_def with_slice_def Uint16_short PutUint16_short)
  moreover have "off \<le> length b \<and> length b < off + 4 \<longrightarrow>
        read_at Uint32 b off = Inl (IndexOutOfRange 3 (length b - off))
        \<and> write_at PutUint32 b off v32 = (b, Some (IndexOutOfRange 3 (length b - off)))"
    by (auto simp: read_at_def write_at_def with_slice_def Uint32_short PutUint32_short)
  moreover have "off \<le> length b \<and> length b < off + 8 \<longrightarrow>
        read_at Uint64 b off = Inl (IndexOutOfRange 7 (length b - off))
        \<and> write_at PutUint64 b off v64 = (b, Some (IndexOutOfRange 7 (length b - off)))"
    by (auto simp: read_at_def write_at_def with_slice_def Uint64_short PutUint64_short)
  moreover have "length b < 2 \<longrightarrow>
      Uint16 b = Inl (IndexOutOfRange 1 (length b))
      \<and> PutUint16 b v16 = (b, Some (IndexOutOfRange 1 (length b)))"
    by (simp add: Uint16_short PutUint16_short)
  moreover have "length b < 4 \<longrightarrow>
      Uint32 b = Inl (IndexOutOfRange 3 (length b))
      \<and> PutUint32 b v32 = (b, Some (IndexOutOfRange 3 (length b)))"
    by (simp add: Uint32_short PutUint32_short)
  moreover have "length b < 8 \<longrightarrow>
      Uint64 b = Inl (IndexOutOfRange 7 (length b))
      \<and> PutUint64 b v64 = (b, Some (IndexOutOfRange 7 (length b)))"
    by (simp add: Uint64_short PutUint64_short)
  ultimately show ?thesis by blast
qed

theorem littleEndian_bounds_witness:
  "Uint16 [0xAA] = Inl (IndexOutOfRange 1 1)
   \<and> PutUint16 [0xAA] 0xBEEF = ([0xAA], Some (IndexOutOfRange 1 1))
   \<and> Uint32 [1, 2, 3] = Inl (IndexOutOfRange 3 3)
   \<and> PutUint32 [1, 2, 3] 0xDEADBEEF = ([1, 2, 3], Some (IndexOutOfRange 3 3))
   \<and> Uint64 [1, 2, 3, 4, 5, 6, 7] = Inl (IndexOutOfRange 7 7)
   \<and> PutUint64 [1, 2, 3, 4, 5, 6, 7] 0x0123456789ABCDEF
        = ([1, 2, 3, 4, 5, 6, 7], Some (IndexOutOfRange 7 7))"
  using littleEndian_bounds [where b = "[0xAA]" and ?v16.0 = "0xBEEF"]
    littleEndian_bounds [where b = "[1, 2, 3]" and ?v32.0 = "0xDEADBEEF"]
    littleEndian_bounds [where b = "[1, 2, 3, 4, 5, 6, 7]" and ?v64.0 = "0x0123456789ABCDEF"]
  by simp

section \<open>Properties of the sleep request\<close>

lemma clock_body_reads:
  assumes "26 \<le> length body"
  shows "\<exists>b'. clock_body body cid t p f = (b', None) \<and> length b' = length body
      \<and> read_at Uint32 b' 0 = Inr cid
      \<and> read_at Uint64 b' clock_timeout_offset = Inr t
      \<and> read_at Uint64 b' clock_precision_offset = Inr p
      \<and> read_at Uint16 b' clock_flags_offset = Inr f"
proof -
  from assms have "body \<noteq> []" by auto
  with assms show ?thesis
    by (simp add: clock_body_def and_then_def clock_timeout_offset_def
        clock_precision_offset_def clock_flags_offset_def write_at_16 write_at_32 write_at_64
        read_at_16 read_at_32 read_at_64 le16 le32 le64)
qed

lemma unat_u32_bound: "unat (usec :: u32) < 2 ^ 32"
  using unsigned_less [of usec, where ?'a = nat] by simp

lemma unat_widen: "unat (ucast (usec :: u32) :: u64) = unat usec"
proof -
  have "unat usec < 2 ^ 64" using unat_u32_bound [of usec] by simp
  then show ?thesis by (simp add: unsigned_ucast_eq take_bit_nat_eq_self)
qed

lemma usec_to_nsec: "unat (ucast (usec :: u32) * 1000 :: u64) = unat usec * 1000"
proof -
  have "unat usec * 1000 < 2 ^ 64" using unat_u32_bound [of usec] by simp
  then show ?thesis by (simp add: unat_word_ariths unat_widen)
qed

lemma read_at_append:
  "length pre = off \<Longrightarrow> k \<le> length s \<Longrightarrow> read_at rd (pre @ s) (off + k) = read_at rd s k"
  by (simp add: read_at_def)

lemma setClock_reads:
  assumes sb: "setBody u (ucast eventtypeClock) = (u', off)" and len: "off + 26 \<le> length u'"
  shows "\<exists>s. setClock setBody u cid t p f = (s, None) \<and> length s = length u'
      \<and> read_at Uint32 s off = Inr cid
      \<and> read_at Uint64 s (off + clock_timeout_offset) = Inr t
      \<and> read_at Uint64 s (off + clock_precision_offset) = Inr p
      \<and> read_at Uint16 s (off + clock_flags_offset) = Inr f"
proof -
  from len have "26 \<le> length (drop off u')" by simp
  from clock_body_reads [OF this, of cid t p f]
  obtain b' where b': "clock_body (drop off u') cid t p f = (b', None)"
      "length b' = length (drop off u')"
      "read_at Uint32 b' 0 = Inr cid"
      "read_at Uint64 b' clock_timeout_offset = Inr t"
      "read_at Uint64 b' clock_precision_offset = Inr p"
      "read_at Uint16 b' clock_flags_offset = Inr f"
    by blast
  let ?s = "take off u' @ b'"
  from len have pre: "length (take off u') = off" by simp
  have "setClock setBody u cid t p f = (?s, None)"
    using len by (simp add: setClock_def sb with_slice_def b'(1))
  moreover have "length ?s = length u'" using len b'(2) by simp
  moreover have "read_at Uint32 ?s off = Inr cid"
    using read_at_append [OF pre, of 0 b' Uint32] b'(3) by simp
  moreover have "read_at Uint64 ?s (off + clock_timeout_offset) = Inr t"
    using read_at_append [OF pre, of clock_timeout_offset b' Uint64] b'(2,4) len
    by (simp add: clock_timeout_offset_def)
  moreover have "read_at Uint64 ?s (off + clock_precision_offset) = Inr p"
    using read_at_append [OF pre, of clock_precision_offset b' Uint64] b'(2,5) len
    by (simp add: clock_precision_offset_def)
  moreover have "read_at Uint16 ?s (off + clock_flags_offset) = Inr f"
    using read_at_append [OF pre, of clock_flags_offset b' Uint16] b'(2,6) len
    by (simp add: clock_flags_offset_def)
  ultimately show ?thesis by blast
qed

text \<open>
  Claim C1.  For every microsecond count \<open>usec\<close>, \<^verbatim>\<open>usleep\<close> makes exactly one host call,
  \<^verbatim>\<open>poll_oneoff\<close> with one subscription.  The subscription was given the Clock event type
  through \<^verbatim>\<open>setBody\<close>, and its body holds the monotonic clock id at body offset 0, the
  timeout \<open>usec \<times> 1000\<close> (no wrap-around in 64 bits) at body offset 8, the precision 1000
  at body offset 16 and the flags 0 at body offset 24; the two 64-bit offsets are
  multiples of 8.  \<^verbatim>\<open>setBody\<close> is any function that leaves room for the 26 bytes of the
  clock body.
\<close>

theorem usleep_encodes_clock_subscription:
  assumes "setBody (replicate 48 0) (ucast eventtypeClock) = (u, off)"
    and "off + 26 \<le> length u"
  shows "\<exists>req. fst (usleep base setBody poll_oneoff usec) = [PollOneoff req]
      \<and> nsubscriptions req = 1
      \<and> sub_addr req = base + usleep_slice_offset base
      \<and> length (sub_bytes req) = length u
      \<and> read_at Uint32 (sub_bytes req) off = Inr clockMonotonic
      \<and> read_at Uint64 (sub_bytes req) (off + clock_timeout_offset) = Inr (ucast usec * 1000)
      \<and> unat (ucast usec * 1000 :: u64) = unat usec * 1000
      \<and> read_at Uint64 (sub_bytes req) (off + clock_precision_offset) = Inr 1000
      \<and> read_at Uint16 (sub_bytes req) (off + clock_flags_offset) = Inr 0
      \<and> clock_timeout_offset mod 8 = 0 \<and> clock_precision_offset mod 8 = 0"
proof -
  from setClock_reads [of setBody "replicate 48 0" u off clockMonotonic "ucast usec * 1000" 1000 0]
    assms
  obtain s where s: "setClock setBody (replicate 48 0) clockMonotonic (ucast usec * 1000) 1000 0
        = (s, None)"
      "length s = length u"
      "read_at Uint32 s off = Inr clockMonotonic"
      "read_at Uint64 s (off + clock_timeout_offset) = Inr (ucast usec * 1000)"
      "read_at Uint64 s (off + clock_precision_offset) = Inr 1000"
      "read_at Uint16 s (off + clock_flags_offset) = Inr 0"
    by blast
  have "min 48 (128 - usleep_slice_offset base) = 48"
    by (simp add: usleep_slice_offset_def)
  moreover have "clock_timeout_offset mod 8 = 0" "clock_precision_offset mod 8 = 0"
    by (simp_all add: clock_timeout_offset_def clock_precision_offset_def)
  ultimately show ?thesis
    by (simp add: usleep_def s usec_to_nsec Let_def)
qed

theorem usleep_encodes_clock_subscription_witness:
  "\<exists>req. fst (usleep 4096 preview1_setBody poll_succeeds 2000) = [PollOneoff req]
      \<and> nsubscriptions req = 1
      \<and> read_at Uint32 (sub_bytes req) 16 = Inr 1
      \<and> read_at Uint64 (sub_bytes req) 24 = Inr 2000000
      \<and> read_at Uint64 (sub_bytes req) 32 = Inr 1000
      \<and> read_at Uint16 (sub_bytes req) 40 = Inr 0"
  using usleep_encodes_clock_subscription [of preview1_setBody "(replicate 48 0)[8 := 0]" 16 4096
      poll_succeeds 2000]
  by (simp add: preview1_setBody_def eventtypeClock_def clockMonotonic_def
      clock_timeout_offset_def clock_precision_offset_def clock_flags_offset_def)
    blast

subsection \<open>Where the subscription starts\<close>

lemma tmpUint64_1_aligned: "tmpUint64_1 ptr mod 8 = 0"
  unfolding tmpUint64_1_def by presburger

lemma tmpUint64_2_aligned: "tmpUint64_2 ptr mod 8 = 0"
  unfolding tmpUint64_2_def Let_def by presburger

lemma usleep_start_aligned_iff:
  "(base + usleep_slice_offset base) mod 8 = 0 \<longleftrightarrow> base mod 4 = 0"
  unfolding usleep_slice_offset_def by presburger


section \<open>Properties of the host-call wrappers\<close>

lemma readRandom_empty: "readRandom random_get [] = ([], Inl (IndexOutOfRange 0 0))"
  by (simp add: readRandom_def load_def)

lemma readRandom_nonempty:
  "r \<noteq> [] \<Longrightarrow> readRandom random_get r =
     ([RandomGet (of_nat (length r))],
      Inr (if random_get r (of_nat (length r)) \<noteq> 0 then 0 else int (length r)))"
  by (simp add: readRandom_def load_def)

lemma size_of_len: "length r < 2 ^ 32 \<Longrightarrow> unat (of_nat (length r) :: u32) = length r"
  by (simp add: unat_of_nat)

lemma write1_throws:
  "fst (fd_write (of_nat fd) (of_nat p) n 1) \<noteq> 0 \<Longrightarrow>
     snd (write1 fd_write fd p n) = Inl (Throw ''fd_write failed'')"
  by (auto simp: write1_def Let_def split: prod.splits)

lemma walltime1_throws:
  "fst (clock_time_get clockRealtime 0) \<noteq> 0 \<Longrightarrow>
     snd (walltime1 clock_time_get) = Inl (Throw ''clock_time_get failed'')"
  by (auto simp: walltime1_def split: prod.splits)

lemma nanotime1_throws:
  "fst (clock_time_get clockMonotonic 0) \<noteq> 0 \<Longrightarrow>
     snd (nanotime1 clock_time_get) = Inl (Throw ''clock_time_get failed'')"
  by (auto simp: nanotime1_def split: prod.splits)

lemma usleep_throws:
  assumes "\<forall>req. poll_oneoff req \<noteq> 0"
  shows "snd (usleep base setBody poll_oneoff usec) \<noteq> None"
  using assms by (simp add: usleep_def Let_def split: prod.splits option.splits)

lemma decode_pass_sizes_throws:
  "fst sizes \<noteq> 0 \<Longrightarrow> decode_pass sizes get addr sc gc sm gm = ([], [sc], Some (Throw sm))"
  by (auto simp: decode_pass_def split: prod.splits)

lemma decode_pass_get_throws:
  "sizes = (0, count, bufLen) \<Longrightarrow> count \<noteq> 0 \<Longrightarrow> bufLen \<noteq> 0 \<Longrightarrow> fst (get (of_nat addr)) \<noteq> 0
   \<Longrightarrow> decode_pass sizes get addr sc gc sm gm
       = (replicate (unat count) [], [sc, gc], Some (Throw gm))"
  by (auto simp: decode_pass_def load_def unat_gt_0 Let_def split: prod.splits)

lemma goenvs_args_sizes_throws:
  "fst (args_sizes_get h) \<noteq> 0 \<Longrightarrow>
     failure (goenvs h a e) = Some (Throw ''args_sizes_get failed'')"
  by (simp add: goenvs_def decode_pass_sizes_throws)

text \<open>
  Claim C7, as stated for every buffer, fails on the empty buffer: \<^verbatim>\<open>readRandom\<close> panics
  there, whatever the host would answer, and makes no host call.
\<close>

theorem readRandom_empty_counterexample:
  "readRandom random_get_succeeds [] = ([], Inl (IndexOutOfRange 0 0))
   \<and> readRandom random_get_fails [] = ([], Inl (IndexOutOfRange 0 0))"
  by (simp add: readRandom_empty)

text \<open>
  Claim C7, amended.  For every non-empty buffer, \<^verbatim>\<open>readRandom\<close> calls \<^verbatim>\<open>random_get\<close>
  once, with the buffer's length narrowed to 32 bits, which is the full length for a
  buffer of fewer than \<open>2 ^ 32\<close> bytes, as every buffer of a 32-bit address space is; it
  returns the buffer's length when the host returns 0 and 0 when the host returns
  anything else, without fault.  The other wrappers fault on a host error:
  \<^verbatim>\<open>write1\<close>, \<^verbatim>\<open>walltime1\<close>, \<^verbatim>\<open>nanotime1\<close>, \<^verbatim>\<open>usleep\<close> and both calls of each pass of
  \<^verbatim>\<open>goenvs\<close>.
\<close>

theorem readRandom_contract:
  "(r \<noteq> [] \<longrightarrow>
      fst (readRandom random_get r) = [RandomGet (of_nat (length r))]
      \<and> (length r < 2 ^ 32 \<longrightarrow> unat (of_nat (length r) :: u32) = length r)
      \<and> (random_get r (of_nat (length r)) = 0 \<longrightarrow>
            snd (readRandom random_get r) = Inr (int (length r)))
      \<and> (random_get r (of_nat (length r)) \<noteq> 0 \<longrightarrow>
            snd (readRandom random_get r) = Inr 0))
   \<and> (fst (fd_write (of_nat fd) (of_nat p) n 1) \<noteq> 0 \<longrightarrow>
        snd (write1 fd_write fd p n) = Inl (Throw ''fd_write failed''))
   \<and> (fst (clock_time_get clockRealtime 0) \<noteq> 0 \<longrightarrow>
        snd (walltime1 clock_time_get) = Inl (Throw ''clock_time_get failed''))
   \<and> (fst (clock_time_get clockMonotonic 0) \<noteq> 0 \<longrightarrow>
        snd (nanotime1 clock_time_get) = Inl (Throw ''clock_time_get failed''))
   \<and> ((\<forall>req. poll_oneoff req \<noteq> 0) \<longrightarrow> snd (usleep base setBody poll_oneoff usec) \<noteq> None)
   \<and> (fst sizes \<noteq> 0 \<longrightarrow>
        snd (snd (decode_pass sizes get addr sc gc sm gm)) = Some (Throw sm))
   \<and> (sizes = (0, count, bufLen) \<and> count \<noteq> 0 \<and> bufLen \<noteq> 0
        \<and> fst (get (of_nat addr)) \<noteq> 0 \<longrightarrow>
        snd (snd (decode_pass sizes get addr sc gc sm gm)) = Some (Throw gm))
   \<and> (fst (args_sizes_get h) \<noteq> 0 \<longrightarrow>
        failure (goenvs h a e) = Some (Throw ''args_sizes_get failed''))"
  by (simp add: readRandom_nonempty size_of_len write1_throws walltime1_throws nanotime1_throws
      usleep_throws decode_pass_sizes_throws decode_pass_get_throws goenvs_args_sizes_throws)

theorem readRandom_contract_witness:
  "readRandom random_get_succeeds [0, 0, 0, 0] = ([RandomGet 4], Inr 4)
   \<and> readRandom random_get_fails [0, 0, 0, 0] = ([RandomGet 4], Inr 0)"
  using readRandom_contract [of "[0, 0, 0, 0]" random_get_succeeds]
    readRandom_contract [of "[0, 0, 0, 0]" random_get_fails]
  by (simp add: random_get_succeeds_def random_get_fails_def prod_eq_iff)

text \<open>
  Claim C10.  \<^verbatim>\<open>readRandom\<close> indexes the buffer's first element before anything else: on
  the empty buffer it stops with an index-out-of-range fault, without a host call and
  without a byte count.  On a non-empty buffer it returns a count, and that count is 0
  when the host reports an error.
\<close>

theorem readRandom_empty_faults:
  "readRandom random_get [] = ([], Inl (IndexOutOfRange 0 0))
   \<and> (r \<noteq> [] \<longrightarrow> (\<exists>n. snd (readRandom random_get r) = Inr n))
   \<and> (r \<noteq> [] \<and> random_get r (of_nat (length r)) \<noteq> 0 \<longrightarrow>
        snd (readRandom random_get r) = Inr 0)"
  by (simp add: readRandom_empty readRandom_nonempty)

theorem readRandom_empty_faults_witness:
  "readRandom random_get_fails [] = ([], Inl (IndexOutOfRange 0 0))
   \<and> snd (readRandom random_get_fails [7]) = Inr 0"
  using readRandom_empty_faults [of random_get_fails "[7]"]
  by (simp add: random_get_fails_def)

section \<open>Properties of the bootstrap\<close>

lemma scan_nul_finds:
  "0 \<in> set (drop s buf) \<Longrightarrow>
     scan_nul buf s = Inr (s + length (takeWhile (\<lambda>b. b \<noteq> 0) (drop s buf)))"
proof (induction buf s rule: scan_nul.induct)
  case (1 buf e)
  from "1.prems" have lt: "e < length buf" by (cases "e < length buf") auto
  then have d: "drop e buf = buf ! e # drop (Suc e) buf" by (simp add: Cons_nth_drop_Suc)
  show ?case
  proof (cases "buf ! e = 0")
    case True
    with lt d show ?thesis by (simp add: scan_nul.simps [of buf e])
  next
    case False
    with "1.prems" d have "0 \<in> set (drop (e + 1) buf)" by auto
    with "1.IH" lt False have "scan_nul buf (e + 1)
        = Inr (e + 1 + length (takeWhile (\<lambda>b. b \<noteq> 0) (drop (e + 1) buf)))" by simp
    with lt d False show ?thesis by (simp add: scan_nul.simps [of buf e])
  qed
qed

lemma start_of_offset:
  "s < 2 ^ 32 \<Longrightarrow> unat ((base + of_nat s) - base :: u32) = s"
  by (simp add: unat_of_nat)

lemma decode_entry_ok:
  assumes "0 \<in> set (drop s buf)" and "length buf < 2 ^ 32"
  shows "decode_entry buf base (base + of_nat s) = Inr (entry_at buf s)"
proof -
  from assms(1) have "s < length buf" by (cases "s < length buf") auto
  with assms(2) have "s < 2 ^ 32" by simp
  then have st: "unat ((base + of_nat s) - base :: u32) = s" by (rule start_of_offset)
  have "take (length (takeWhile (\<lambda>b. b \<noteq> 0) (drop s buf))) (drop s buf)
      = takeWhile (\<lambda>b. b \<noteq> 0) (drop s buf)"
    by (rule takeWhile_eq_take [symmetric])
  then show ?thesis
    using st scan_nul_finds [OF assms(1)]
    by (simp add: decode_entry_def entry_at_def bind_res_def Let_def)
qed

lemma decode_entries_all:
  assumes "length argv = n"
    and "\<forall>i<n. decode_entry buf base (argv ! i) = Inr (f i)"
  shows "k \<le> n \<Longrightarrow> length out = n \<Longrightarrow>
     decode_entries buf base argv [k..<n] out = (take k out @ map f [k..<n], None)"
proof (induction "n - k" arbitrary: k out)
  case 0
  then show ?case by simp
next
  case (Suc d)
  then have kn: "k < n" by simp
  then have upt: "[k..<n] = k # [Suc k..<n]" by (simp add: upt_conv_Cons)
  from kn assms have e: "bind_res (load argv k) (decode_entry buf base) = Inr (f k)"
    by (simp add: bind_res_def load_def)
  from Suc kn have "decode_entries buf base argv [Suc k..<n] (out[k := f k])
      = (take (Suc k) (out[k := f k]) @ map f [Suc k..<n], None)"
    by simp
  moreover from kn Suc.prems have "take (Suc k) (out[k := f k]) = take k out @ [f k]"
    by (simp add: take_Suc_conv_app_nth)
  ultimately show ?case by (simp add: upt e)
qed

lemma host_stores_exact: "length stored = length made \<Longrightarrow> host_stores made stored = stored"
  by (simp add: host_stores_def)

lemma decode_pass_delivers:
  assumes "delivers sizes get addr starts buf"
  shows "decode_pass sizes get addr sc gc sm gm
     = (map (entry_at buf) starts, if starts = [] then [sc] else [sc, gc], None)"
proof -
  from assms have n: "length starts < 2 ^ 32" and l: "length buf < 2 ^ 32"
    and sz: "sizes = (0, of_nat (length starts), of_nat (length buf))"
    and g: "get (of_nat addr) = (0, map (\<lambda>s. of_nat addr + of_nat s) starts, buf)"
    and nul: "\<And>s. s \<in> set starts \<Longrightarrow> 0 \<in> set (drop s buf)"
    by (auto simp: delivers_def list_all_iff)
  from n have un: "unat (of_nat (length starts) :: u32) = length starts"
    by (simp add: unat_of_nat)
  from l have ul: "unat (of_nat (length buf) :: u32) = length buf"
    by (simp add: unat_of_nat)
  show ?thesis
  proof (cases "starts = []")
    case True
    then show ?thesis by (simp add: decode_pass_def sz)
  next
    case False
    then obtain s where "s \<in> set starts" by (cases starts) auto
    from nul [OF this] have nonempty: "buf \<noteq> []" by auto
    let ?argv = "map (\<lambda>s. of_nat addr + of_nat s) starts :: u32 list"
    have each: "decode_entry buf (of_nat addr) (of_nat addr + of_nat (starts ! i))
        = Inr (entry_at buf (starts ! i))"
      if "i < length starts" for i
    proof -
      from that have "0 \<in> set (drop (starts ! i) buf)" by (intro nul nth_mem)
      from decode_entry_ok [OF this l] show ?thesis .
    qed
    have "decode_entries buf (of_nat addr) ?argv [0..<length starts]
            (replicate (length starts) [])
        = (take 0 (replicate (length starts) [])
             @ map (\<lambda>i. entry_at buf (starts ! i)) [0..<length starts], None)"
      using decode_entries_all [where argv = ?argv and n = "length starts" and buf = buf
          and base = "of_nat addr" and f = "\<lambda>i. entry_at buf (starts ! i)" and k = 0
          and out = "replicate (length starts) []"] each
      by simp
    moreover have "map (\<lambda>i. entry_at buf (starts ! i)) [0..<length starts]
        = map (entry_at buf) starts"
      by (rule nth_equalityI) simp_all
    ultimately have de: "decode_entries buf (of_nat addr) ?argv [0..<length starts]
            (replicate (length starts) []) = (map (entry_at buf) starts, None)"
      by simp
    from False nonempty show ?thesis
      by (simp add: decode_pass_def sz un ul g load_def host_stores_exact de Let_def)
  qed
qed

text \<open>
  Claim C3.  When the host delivers the argument table and the environment table as an
  index of \<open>N\<close> 32-bit offsets, each the flat buffer's address plus the entry's start, and a
  flat buffer in which every entry is followed by a NUL byte, \<^verbatim>\<open>goenvs\<close> ends without fault
  and produces exactly \<open>N\<close> strings per table, in index order: string \<open>i\<close> is the bytes from
  start \<open>i\<close> up to, and not including, the first NUL byte after it.
\<close>

theorem goenvs_decodes_tables:
  assumes "delivers (args_sizes_get h) (args_get h) argvBuf_addr arg_starts argvBuf"
    and "delivers (environ_sizes_get h) (environ_get h) environBuf_addr env_starts environBuf"
  shows "argslice (goenvs h argvBuf_addr environBuf_addr) = map (entry_at argvBuf) arg_starts
    \<and> envs (goenvs h argvBuf_addr environBuf_addr) = map (entry_at environBuf) env_starts
    \<and> length (argslice (goenvs h argvBuf_addr environBuf_addr)) = length arg_starts
    \<and> length (envs (goenvs h argvBuf_addr environBuf_addr)) = length env_starts
    \<and> failure (goenvs h argvBuf_addr environBuf_addr) = None"
  by (simp add: goenvs_def decode_pass_delivers [OF assms(1)] decode_pass_delivers [OF assms(2)])

theorem goenvs_decodes_tables_witness:
  "argslice (goenvs example_host 65536 131072) = [''a'', ''bc'']
   \<and> envs (goenvs example_host 65536 131072) = [''X=1'']
   \<and> failure (goenvs example_host 65536 131072) = None"
proof -
  have a: "delivers (args_sizes_get example_host) (args_get example_host) 65536 [0, 2]
      example_args_buf"
    by (simp add: delivers_def example_host_def example_args_buf_def)
  have e: "delivers (environ_sizes_get example_host) (environ_get example_host) 131072 [0]
      example_env_buf"
    by (simp add: delivers_def example_host_def example_env_buf_def)
  show ?thesis
    using goenvs_decodes_tables [OF a e]
    by (simp add: entry_at_def example_args_buf_def example_env_buf_def gostring_def
        char_of_def bit_Suc_0_iff)
qed

subsection \<open>Empty tables\<close>

lemma decode_pass_zero:
  "decode_pass (0, 0, bufLen) get addr sc gc sm gm = ([], [sc], None)"
  by (simp add: decode_pass_def)

lemma decode_pass_calls:
  "set (fst (snd (decode_pass sizes get addr sc gc sm gm))) \<subseteq> {sc, gc}"
  by (auto simp: decode_pass_def Let_def split: prod.splits sum.splits if_splits)

lemma goenvs_args_zero:
  assumes "args_sizes_get h = (0, 0, l)"
  shows "argslice (goenvs h a e) = [] \<and> ArgsGet \<notin> set (calls (goenvs h a e))"
proof -
  obtain es cs f where p: "decode_pass (environ_sizes_get h) (environ_get h) e
      EnvironSizesGet EnvironGet ''environ_sizes_get failed'' ''environ_get failed''
        = (es, cs, f)"
    by (cases "decode_pass (environ_sizes_get h) (environ_get h) e
      EnvironSizesGet EnvironGet ''environ_sizes_get failed'' ''environ_get failed''") auto
  from decode_pass_calls [of "environ_sizes_get h" "environ_get h" e EnvironSizesGet EnvironGet
      "''environ_sizes_get failed''" "''environ_get failed''"] p
  have "ArgsGet \<notin> set cs" by auto
  then show ?thesis by (simp add: goenvs_def assms decode_pass_zero p)
qed

lemma goenvs_environ_zero:
  assumes "environ_sizes_get h = (0, 0, l)"
  shows "envs (goenvs h a e) = [] \<and> EnvironGet \<notin> set (calls (goenvs h a e))"
proof -
  obtain args cs f where p: "decode_pass (args_sizes_get h) (args_get h) a
      ArgsSizesGet ArgsGet ''args_sizes_get failed'' ''args_get failed'' = (args, cs, f)"
    by (cases "decode_pass (args_sizes_get h) (args_get h) a
      ArgsSizesGet ArgsGet ''args_sizes_get failed'' ''args_get failed''") auto
  from decode_pass_calls [of "args_sizes_get h" "args_get h" a ArgsSizesGet ArgsGet
      "''args_sizes_get failed''" "''args_get failed''"] p
  have "EnvironGet \<notin> set cs" by auto
  then show ?thesis by (cases f) (simp_all add: goenvs_def assms decode_pass_zero p)
qed

text \<open>
  Claim C8.  When \<^verbatim>\<open>args_sizes_get\<close> succeeds with an entry count of zero, the argument
  slice is empty and \<^verbatim>\<open>args_get\<close> is not called; likewise for \<^verbatim>\<open>environ_sizes_get\<close>, the
  environment slice and \<^verbatim>\<open>environ_get\<close>.  When both counts are zero, the two sizes calls
  are the only host calls and \<^verbatim>\<open>goenvs\<close> ends without fault.
\<close>

theorem goenvs_zero_entries:
  "(args_sizes_get h = (0, 0, la) \<longrightarrow>
      argslice (goenvs h a e) = [] \<and> ArgsGet \<notin> set (calls (goenvs h a e)))
   \<and> (environ_sizes_get h = (0, 0, le) \<longrightarrow>
      envs (goenvs h a e) = [] \<and> EnvironGet \<notin> set (calls (goenvs h a e)))
   \<and> (args_sizes_get h = (0, 0, la) \<and> environ_sizes_get h = (0, 0, le) \<longrightarrow>
      calls (goenvs h a e) = [ArgsSizesGet, EnvironSizesGet] \<and> failure (goenvs h a e) = None)"
proof -
  have 1: "args_sizes_get h = (0, 0, la) \<longrightarrow>
      argslice (goenvs h a e) = [] \<and> ArgsGet \<notin> set (calls (goenvs h a e))"
    using goenvs_args_zero [of h la a e] by blast
  have 2: "environ_sizes_get h = (0, 0, le) \<longrightarrow>
      envs (goenvs h a e) = [] \<and> EnvironGet \<notin> set (calls (goenvs h a e))"
    using goenvs_environ_zero [of h le a e] by blast
  have 3: "args_sizes_get h = (0, 0, la) \<and> environ_sizes_get h = (0, 0, le) \<longrightarrow>
      calls (goenvs h a e) = [ArgsSizesGet, EnvironSizesGet] \<and> failure (goenvs h a e) = None"
    by (simp add: goenvs_def decode_pass_zero)
  from 1 2 3 show ?thesis by blast
qed

theorem goenvs_zero_entries_witness:
  "argslice (goenvs empty_host 65536 131072) = []
   \<and> envs (goenvs empty_host 65536 131072) = []
   \<and> calls (goenvs empty_host 65536 131072) = [ArgsSizesGet, EnvironSizesGet]
   \<and> failure (goenvs empty_host 65536 131072) = None"
  using goenvs_zero_entries [of empty_host 0 65536 131072 0]
  by (simp add: empty_host_def)

section \<open>Properties of the aligned allocation\<close>

text \<open>
  Claim C6, as stated, fails.  The allocator \<open>odd_new\<close> has alignment period 1 and the
  allocator \<open>word_new\<close> has alignment period 4; both periods divide 8.  With \<open>odd_new\<close>
  and the shape of a byte the five candidates are odd, and with \<open>word_new\<close> and a 4-byte
  shape aligned to 4 they are all 4 modulo 8: in both cases \<^verbatim>\<open>NewAligned\<close> takes the
  failure branch and prints the five addresses.
\<close>

theorem NewAligned_fails_counterexample:
  "(1 :: nat) dvd 8 \<and> alignment_period 1 odd_new
   \<and> NewAligned odd_new byte_shape =
      ([(''0ptr= '', 65), (''2ptr= '', 195), (''4ptr= '', 325), (''6ptr= '', 455),
        (''8ptr= '', 585)],
       Inl (Throw ''failed to allocate aligned value''))
   \<and> (4 :: nat) dvd 8 \<and> alignment_period 4 word_new
   \<and> NewAligned word_new word_shape =
      ([(''0ptr= '', 68), (''2ptr= '', 196), (''4ptr= '', 324), (''6ptr= '', 460),
        (''8ptr= '', 588)],
       Inl (Throw ''failed to allocate aligned value''))"
  by (simp add: alignment_period_def NewAligned_def candidate_def field_offset_def
      padded_def word_new_def word_shape_def odd_new_def byte_shape_def Let_def)

text \<open>
  Claim C6, amended.  For every shape and every allocator: \<^verbatim>\<open>NewAligned\<close> returns the
  first of the five candidates (padding 0, 2, 4, 6, 8) whose address is a multiple of 8,
  if there is one, and otherwise takes the failure branch.  So an address it returns is a
  multiple of 8 and is one of the five candidates, and nothing is printed; the failure
  branch is taken exactly when none of the five candidates is a multiple of 8, and then
  the five candidates are what is printed; and when every address of the allocator is a
  multiple of 8 the first candidate is returned, so the failure branch is not reached.
\<close>

theorem NewAligned_first_aligned:
  "snd (NewAligned new T) =
     (case find (\<lambda>c. c mod 8 = 0) (candidates new T) of
        Some a \<Rightarrow> Inr a
      | None \<Rightarrow> Inl (Throw ''failed to allocate aligned value''))
   \<and> (\<forall>a. snd (NewAligned new T) = Inr a \<longrightarrow>
       a mod 8 = 0 \<and> a \<in> set (candidates new T) \<and> fst (NewAligned new T) = [])
   \<and> (snd (NewAligned new T) = Inl (Throw ''failed to allocate aligned value'')
        \<longleftrightarrow> (\<forall>c \<in> set (candidates new T). c mod 8 \<noteq> 0))
   \<and> (snd (NewAligned new T) = Inl (Throw ''failed to allocate aligned value'') \<longrightarrow>
        map snd (fst (NewAligned new T)) = candidates new T)
   \<and> (alignment_period 8 new \<longrightarrow> NewAligned new T = ([], Inr (new 0 T)))"
  by (auto simp: NewAligned_def candidates_def Let_def alignment_period_def candidate_def)

theorem NewAligned_first_aligned_witness:
  "NewAligned aligned_new word_shape = ([], Inr 64)
   \<and> snd (NewAligned word_new word_shape) = Inl (Throw ''failed to allocate aligned value'')"
proof -
  have "alignment_period 8 aligned_new"
    by (simp add: alignment_period_def aligned_new_def)
  moreover have "\<forall>c \<in> set (candidates word_new word_shape). c mod 8 \<noteq> 0"
    by (simp add: candidates_def candidate_def field_offset_def padded_def word_new_def
        word_shape_def)
  ultimately show ?thesis
    using NewAligned_first_aligned [of aligned_new word_shape, THEN conjunct2]
      NewAligned_first_aligned [of word_new word_shape, THEN conjunct2]
    by (simp add: aligned_new_def)
qed

section \<open>Properties of the time zone loader\<close>

text \<open>
  Claim C9.  For every name, \<^verbatim>\<open>loadLocationEmbeddedFile\<close> gives what \<^verbatim>\<open>LoadLocation\<close> gives
  when the name is empty, \<open>UTC\<close> or \<open>Local\<close>; otherwise, when the table has an entry under
  \<open>zoneinfo/\<close> followed by the name, it gives what \<^verbatim>\<open>LoadLocationFromTZData\<close> gives on that
  entry; otherwise it gives no location and the error \<open>unknown location\<close> followed by the
  name.
\<close>

theorem loadLocationEmbeddedFile_cases:
  "(name = [] \<or> name = ''UTC'' \<or> name = ''Local'' \<longrightarrow>
      loadLocationEmbeddedFile LoadLocation FromTZData files name = LoadLocation name)
   \<and> (name \<noteq> [] \<and> name \<noteq> ''UTC'' \<and> name \<noteq> ''Local'' \<longrightarrow>
        (\<forall>data. files (''zoneinfo/'' @ name) = Some data \<longrightarrow>
           loadLocationEmbeddedFile LoadLocation FromTZData files name = FromTZData name data)
        \<and> (files (''zoneinfo/'' @ name) = None \<longrightarrow>
           loadLocationEmbeddedFile LoadLocation FromTZData files name
             = (None, Some (''unknown location '' @ name))))"
  by (auto simp: loadLocationEmbeddedFile_def tzData_def)

theorem loadLocationEmbeddedFile_cases_witness:
  "loadLocationEmbeddedFile sample_LoadLocation sample_FromTZData sample_files ''UTC''
     = (Some ''system:UTC'', None)
   \<and> loadLocationEmbeddedFile sample_LoadLocation sample_FromTZData sample_files ''Europe/Paris''
     = (Some ''embedded:Europe/Paris'', None)
   \<and> loadLocationEmbeddedFile sample_LoadLocation sample_FromTZData sample_files ''Mars/Olympus''
     = (None, Some ''unknown location Mars/Olympus'')"
  using loadLocationEmbeddedFile_cases [of "''UTC''" sample_LoadLocation sample_FromTZData
      sample_files]
    loadLocationEmbeddedFile_cases [of "''Europe/Paris''" sample_LoadLocation sample_FromTZData
      sample_files]
    loadLocationEmbeddedFile_cases [of "''Mars/Olympus''" sample_LoadLocation sample_FromTZData
      sample_files]
  by (simp add: sample_LoadLocation_def sample_FromTZData_def sample_files_def)

end
